theory Spec2Isabelle
  imports Main "HOL-Library.Word"
begin

section \<open>Values: style objects and props\<close>

text \<open>
  A style object (\<open>CSSObject\<close>) is a JavaScript object: its own enumerable properties,
  with distinct names, in the order in which JavaScript enumerates them, and with
  \<open>Object.prototype\<close> as its prototype. The values are \<open>undefined\<close>, \<open>null\<close>, booleans,
  numbers, strings, arrays and nested objects; props of a dynamic style are such values
  too. A number is an integer from \<open>-2^53\<close> to \<open>2^53 - 1\<close>, held in a 54-bit word that is
  read as signed: JavaScript represents these integers exactly, and its number-to-string
  conversion writes them as plain decimals. Numbers with a fractional part, \<open>NaN\<close> and
  the infinities are not represented, nor are functions, symbols and cyclic objects.
  Characters are the code units below 256.
\<close>

datatype json =
    JUndefined
  | JNull
  | JBool bool
  | JNum "54 word"
  | JStr string
  | JArr "json list"
  | JObj "(string \<times> json) list"

type_synonym CSS = "(string \<times> json) list"

subsection \<open>\<open>JSON.stringify\<close>\<close>

definition digit_char :: "nat \<Rightarrow> char" where
  "digit_char d = char_of (of_char (CHR ''0'') + d)"

fun show_nat :: "nat \<Rightarrow> string" where
  "show_nat n = (if n < 10 then [digit_char n] else show_nat (n div 10) @ [digit_char (n mod 10)])"

declare show_nat.simps [simp del]

definition show_int :: "int \<Rightarrow> string" where
  "show_int i = (if i < 0 then ''-'' @ show_nat (nat (- i)) else show_nat (nat i))"

definition hex_char :: "nat \<Rightarrow> char" where
  "hex_char d = (if d < 10 then digit_char d else char_of (of_char (CHR ''a'') + (d - 10)))"

definition escape_char :: "char \<Rightarrow> string" where
  "escape_char c =
     (if c = CHR 0x22 then [CHR 0x5C, CHR 0x22]
      else if c = CHR 0x5C then [CHR 0x5C, CHR 0x5C]
      else if c = CHR 0x08 then [CHR 0x5C, CHR ''b'']
      else if c = CHR 0x0C then [CHR 0x5C, CHR ''f'']
      else if c = CHR 0x0A then [CHR 0x5C, CHR ''n'']
      else if c = CHR 0x0D then [CHR 0x5C, CHR ''r'']
      else if c = CHR 0x09 then [CHR 0x5C, CHR ''t'']
      else if (of_char c :: nat) < 32
        then [CHR 0x5C, CHR ''u'', CHR ''0'', CHR ''0'',
              hex_char (of_char c div 16), hex_char (of_char c mod 16)]
      else [c])"

definition quote :: "string \<Rightarrow> string" where
  "quote s = [CHR 0x22] @ concat (map escape_char s) @ [CHR 0x22]"

fun join :: "string \<Rightarrow> string list \<Rightarrow> string" where
  "join sep [] = []"
| "join sep [x] = x"
| "join sep (x # y # ys) = x @ sep @ join sep (y # ys)"

fun isUndefined :: "json \<Rightarrow> bool" where
  "isUndefined JUndefined = True"
| "isUndefined _ = False"

text \<open>
  \<open>stringify v\<close> is the JSON text of \<open>v\<close>. A property whose value is \<open>undefined\<close> is left
  out of an object, and \<open>undefined\<close> as an array element is written \<open>null\<close>, which is what
  \<open>stringify JUndefined\<close> stands for. \<open>JSON.stringify\<close> itself returns \<open>undefined\<close>, not a
  string, when it is called on \<open>undefined\<close>.
\<close>

fun stringify :: "json \<Rightarrow> string" where
  "stringify JUndefined = ''null''"
| "stringify JNull = ''null''"
| "stringify (JBool b) = (if b then ''true'' else ''false'')"
| "stringify (JNum n) = show_int (sint n)"
| "stringify (JStr s) = quote s"
| "stringify (JArr xs) = ''['' @ join '','' (map stringify xs) @ '']''"
| "stringify (JObj kvs) =
     ''{'' @ join '',''
              (map (\<lambda>kv. quote (fst kv) @ '':'' @ stringify (snd kv))
                 (filter (\<lambda>kv. \<not> isUndefined (snd kv)) kvs)) @ ''}''"

definition JSON_stringify :: "json \<Rightarrow> string option" where
  "JSON_stringify v = (if isUndefined v then None else Some (stringify v))"

subsection \<open>Structural equality of values\<close>




section \<open>Abstract style\<close>

type_synonym CacheKey = string

text \<open>
  The tagged union of the source, \<open>null\<close> included. The arguments of the constructors
  are the fields of the source in this order: \<open>key\<close> and \<open>css\<close> of a static or
  dynamic-object node; \<open>key\<close>, \<open>left\<close> and \<open>right\<close> of a merge node; \<open>key\<close>, \<open>props\<close> and
  \<open>fn\<close> of a dynamic-function node. \<open>key\<close> is read on nodes other than \<open>null\<close> only.
\<close>

datatype AbstractStyle =
    Null
  | Static (key: CacheKey) CSS
  | Merge (key: CacheKey) AbstractStyle AbstractStyle
  | DynamicObj (key: CacheKey) CSS
  | DynamicFn (key: CacheKey) json "json \<Rightarrow> CSS"

fun isMerge :: "AbstractStyle \<Rightarrow> bool" where
  "isMerge (Merge k l r) = True"
| "isMerge _ = False"

definition NULL_STYLE_KEY :: CacheKey where
  "NULL_STYLE_KEY = ''0''"

definition nullStyle :: AbstractStyle where
  "nullStyle = Null"

text \<open>
  \<open>hashString\<close> is the external string hash; it is a parameter of the model. A style
  object is never \<open>undefined\<close>, so \<open>JSON.stringify(css)\<close> is its JSON text.
\<close>

definition createStyle :: "(string \<Rightarrow> string) \<Rightarrow> CSS \<Rightarrow> AbstractStyle" where
  "createStyle hashString css = (let k = hashString (stringify (JObj css)) in Static k css)"

text \<open>
  \<open>createDynamicStyle\<close> draws a fresh \<open>uuid()\<close> once, when the factory is called; the
  drawn string is the parameter \<open>uuid\<close>. The result is the applier. Where
  \<open>JSON.stringify(props)\<close> is \<open>undefined\<close>, the string concatenation writes it as
  \<open>undefined\<close>.
\<close>

definition createDynamicStyle ::
  "(string \<Rightarrow> string) \<Rightarrow> string \<Rightarrow> (json \<Rightarrow> CSS) \<Rightarrow> json \<Rightarrow> AbstractStyle" where
  "createDynamicStyle hashString uuid fn =
     (let keyBase = hashString uuid in
      (\<lambda>props.
         let propsKey =
               (case props of
                  JStr s \<Rightarrow> s
                | _ \<Rightarrow> (case JSON_stringify props of
                         Some s \<Rightarrow> s
                       | None \<Rightarrow> ''undefined''));
             k = keyBase @ ''('' @ propsKey @ '')''
         in DynamicFn k props fn))"

definition dynamicStyle :: "CSS \<Rightarrow> AbstractStyle" where
  "dynamicStyle css = (let k = stringify (JObj css) in DynamicObj k css)"

definition isNullStyle :: "AbstractStyle \<Rightarrow> bool" where
  "isNullStyle style = (case style of Null \<Rightarrow> True | _ \<Rightarrow> False)"

function mergeStyles :: "AbstractStyle \<Rightarrow> AbstractStyle \<Rightarrow> AbstractStyle" where
  "mergeStyles l r =
     (if isNullStyle l then (if isNullStyle r then nullStyle else r)
      else if isNullStyle r then l
      else
        let leftKey = key l; rightKey = key r in
        if leftKey = rightKey then l
        else
          let k = leftKey @ '' '' @ rightKey in
          if isMerge r then
            (case r of Merge _ r1 r2 \<Rightarrow> mergeStyles (mergeStyles l r1) r2)
          else Merge k l r)"
  by pat_completeness auto
termination
  by (relation "measure (\<lambda>(l, r). size r)") auto

declare mergeStyles.simps [simp del]

definition getKey :: "AbstractStyle \<Rightarrow> CacheKey" where
  "getKey style = (if \<not> isNullStyle style then key style else NULL_STYLE_KEY)"

subsection \<open>Styles built by the composer\<close>

text \<open>
  The nodes a client can build: the null style, the results of \<open>createStyle\<close>,
  \<open>dynamicStyle\<close> and of an applier returned by \<open>createDynamicStyle\<close>, and merges of
  such nodes.
\<close>

inductive composed :: "(string \<Rightarrow> string) \<Rightarrow> AbstractStyle \<Rightarrow> bool"
  for hashString :: "string \<Rightarrow> string" where
  none: "composed hashString nullStyle"
| static: "composed hashString (createStyle hashString css)"
| dynamicObj: "composed hashString (dynamicStyle css)"
| dynamicFn: "composed hashString (createDynamicStyle hashString uuid fn props)"
| merge: "composed hashString l \<Longrightarrow> composed hashString r \<Longrightarrow> composed hashString (mergeStyles l r)"

text \<open>
  What the last branch of \<open>mergeStyles\<close> guarantees of the merge node it builds, at
  every merge node of a tree.
\<close>

fun wellFormed :: "AbstractStyle \<Rightarrow> bool" where
  "wellFormed (Merge k l r) =
     (\<not> isNullStyle l \<and> \<not> isNullStyle r \<and> key l \<noteq> key r \<and> \<not> isMerge r
      \<and> k = key l @ '' '' @ key r \<and> wellFormed l \<and> wellFormed r)"
| "wellFormed _ = True"

text \<open>No merge node of the tree has a merge node as its right child.\<close>

fun leftLeaning :: "AbstractStyle \<Rightarrow> bool" where
  "leftLeaning (Merge k l r) = (\<not> isMerge r \<and> leftLeaning l \<and> leftLeaning r)"
| "leftLeaning _ = True"

text \<open>
  \<open>keyClash l r\<close>: somewhere in the run of \<open>mergeStyles l r\<close>, recursive calls included,
  the test \<open>leftKey === rightKey\<close> succeeds and the left node is returned as it is.
\<close>

function keyClash :: "AbstractStyle \<Rightarrow> AbstractStyle \<Rightarrow> bool" where
  "keyClash l r =
     (if isNullStyle l \<or> isNullStyle r then False
      else if key l = key r then True
      else if isMerge r then
        (case r of Merge _ r1 r2 \<Rightarrow> keyClash l r1 \<or> keyClash (mergeStyles l r1) r2)
      else False)"
  by pat_completeness auto
termination
  by (relation "measure (\<lambda>(l, r). size r)") auto

declare keyClash.simps [simp del]

text \<open>Three style fragments used as concrete inputs.\<close>

definition styleA :: AbstractStyle where
  "styleA = dynamicStyle [(''a'', JNum 1)]"

definition styleB :: AbstractStyle where
  "styleB = dynamicStyle [(''b'', JNum 2)]"

definition styleC :: AbstractStyle where
  "styleC = dynamicStyle [(''c'', JNum 3)]"

section \<open>Style computation\<close>

subsection \<open>The \<open>deepmerge\<close> library, default options\<close>

text \<open>
  \<open>merge\<close> in the source is the default export of the external library \<open>deepmerge\<close>,
  called with no options. The functions below follow that library function by
  function.

  The names every object inherits from \<open>Object.prototype\<close>: for these \<open>key in object\<close> holds
  although the object has no such property of its own.
\<close>

definition objectPrototypeNames :: "string list" where
  "objectPrototypeNames =
     [''constructor'', ''__defineGetter__'', ''__defineSetter__'', ''hasOwnProperty'',
      ''__lookupGetter__'', ''__lookupSetter__'', ''isPrototypeOf'',
      ''propertyIsEnumerable'', ''toString'', ''valueOf'', ''__proto__'',
      ''toLocaleString'']"

text \<open>
  JavaScript enumerates the properties whose names are array indices (the decimal
  numerals of the integers from \<open>0\<close> to \<open>2^32 - 2\<close>) first, in ascending order, and the
  other properties after them, in the order of their creation.
\<close>

definition isDigit :: "char \<Rightarrow> bool" where
  "isDigit c = (48 \<le> (of_char c :: int) \<and> (of_char c :: int) \<le> 57)"

definition indexValue :: "string \<Rightarrow> int" where
  "indexValue k = foldl (\<lambda>n c. 10 * n + (of_char c - 48)) 0 k"

definition isArrayIndex :: "string \<Rightarrow> bool" where
  "isArrayIndex k =
     (k \<noteq> [] \<and> list_all isDigit k \<and> (k = ''0'' \<or> hd k \<noteq> CHR ''0'')
      \<and> length k \<le> 10 \<and> indexValue k < 4294967295)"

fun insertProperty :: "string \<Rightarrow> json \<Rightarrow> CSS \<Rightarrow> CSS" where
  "insertProperty k v [] = [(k, v)]"
| "insertProperty k v (p # ps) =
     (if isArrayIndex k \<and> (\<not> isArrayIndex (fst p) \<or> indexValue k < indexValue (fst p))
      then (k, v) # p # ps
      else p # insertProperty k v ps)"

text \<open>
  \<open>destination[key] = value\<close> on a plain object: an existing property keeps its place, a
  new one is created at its place in the enumeration order. An assignment to
  \<open>__proto__\<close> runs the inherited setter and creates no property.
\<close>

definition assign :: "string \<Rightarrow> json \<Rightarrow> CSS \<Rightarrow> CSS" where
  "assign k v destination =
     (if k = ''__proto__'' then destination
      else if k \<in> set (map fst destination)
        then map (\<lambda>p. if fst p = k then (k, v) else p) destination
      else insertProperty k v destination)"

definition isMergeableObject :: "json \<Rightarrow> bool" where
  "isMergeableObject v = (case v of JArr _ \<Rightarrow> True | JObj _ \<Rightarrow> True | _ \<Rightarrow> False)"

lemma size_element_le: "x \<in> set xs \<Longrightarrow> size x \<le> size_list size xs"
  by (induction xs) auto

lemma size_property_le:
  "p \<in> set kvs \<Longrightarrow> size (snd p) \<le> size_list (size_prod (\<lambda>x. 0) size) kvs"
  by (induction kvs) auto

text \<open>
  \<open>cloneUnlessOtherwiseSpecified\<close>: a mergeable value is merged into an empty array or
  object. Merging an object into \<open>{}\<close> skips the properties named like a member of
  \<open>Object.prototype\<close>, which \<open>propertyIsUnsafe\<close> rejects.
\<close>

function cloneUnlessOtherwiseSpecified :: "json \<Rightarrow> json" where
  "cloneUnlessOtherwiseSpecified v =
     (case v of
        JArr xs \<Rightarrow> JArr (map cloneUnlessOtherwiseSpecified xs)
      | JObj kvs \<Rightarrow>
          JObj (fold (\<lambda>kv destination.
                        if fst kv \<in> set objectPrototypeNames then destination
                        else assign (fst kv) (cloneUnlessOtherwiseSpecified (snd kv))
                               destination)
                  kvs [])
      | _ \<Rightarrow> v)"
  by pat_completeness auto
termination
  by (relation "measure size")
     (auto simp: less_Suc_eq_le size_element_le size_property_le)

declare cloneUnlessOtherwiseSpecified.simps [simp del]

text \<open>
  \<open>deepmergeV target source\<close> is \<open>deepmerge(target, source)\<close>; the library calls it with a
  mergeable \<open>source\<close> only. Two arrays are concatenated, and a source whose kind (array or
  not) differs from the target's replaces the target. Otherwise \<open>mergeObject\<close> copies the
  properties of a mergeable target and then goes through the properties of the source:
  it skips one that \<open>propertyIsUnsafe\<close> rejects, which for an object target is one the
  target inherits but does not own; it merges one that the target owns and whose source
  value is mergeable; it copies any other. On a target that is not an object
  \<open>key in target\<close> throws, which the library takes for "not on the target".
\<close>

function deepmergeV :: "json \<Rightarrow> json \<Rightarrow> json" where
  "deepmergeV target source =
     (case source of
        JArr ys \<Rightarrow>
          (case target of
             JArr xs \<Rightarrow> JArr (map cloneUnlessOtherwiseSpecified (xs @ ys))
           | _ \<Rightarrow> cloneUnlessOtherwiseSpecified source)
      | JObj s \<Rightarrow>
          (case target of
             JArr xs \<Rightarrow> cloneUnlessOtherwiseSpecified source
           | JObj t \<Rightarrow>
               JObj (fold (\<lambda>kv destination.
                             case map_of t (fst kv) of
                               None \<Rightarrow>
                                 if fst kv \<in> set objectPrototypeNames then destination
                                 else assign (fst kv)
                                        (cloneUnlessOtherwiseSpecified (snd kv)) destination
                             | Some tv \<Rightarrow>
                                 if isMergeableObject (snd kv)
                                 then assign (fst kv) (deepmergeV tv (snd kv)) destination
                                 else assign (fst kv)
                                        (cloneUnlessOtherwiseSpecified (snd kv)) destination)
                       s
                       (fold (\<lambda>kv destination.
                                assign (fst kv) (cloneUnlessOtherwiseSpecified (snd kv))
                                  destination)
                          t []))
           | _ \<Rightarrow>
               JObj (fold (\<lambda>kv destination.
                             assign (fst kv) (cloneUnlessOtherwiseSpecified (snd kv))
                               destination)
                       s []))
      | _ \<Rightarrow> source)"
  by pat_completeness auto
termination
  by (relation "measure (\<lambda>(target, source). size source)")
     (auto simp: less_Suc_eq_le size_property_le)

declare deepmergeV.simps [simp del]

definition deepmerge :: "CSS \<Rightarrow> CSS \<Rightarrow> CSS" where
  "deepmerge x y = (case deepmergeV (JObj x) (JObj y) of JObj d \<Rightarrow> d | _ \<Rightarrow> y)"

subsection \<open>Resolution\<close>

text \<open>A style object is always truthy, so \<open>!left\<close> holds for \<open>undefined\<close> only.\<close>

definition mergeComputedStyles :: "CSS option \<Rightarrow> CSS option \<Rightarrow> CSS option" where
  "mergeComputedStyles l r =
     (case l of
        None \<Rightarrow> r
      | Some lv \<Rightarrow> (case r of None \<Rightarrow> l | Some rv \<Rightarrow> Some (deepmerge lv rv)))"

fun computeStyles :: "AbstractStyle \<Rightarrow> CSS option" where
  "computeStyles Null = None"
| "computeStyles (DynamicObj k css) = Some css"
| "computeStyles (Static k css) = Some css"
| "computeStyles (Merge k l r) = mergeComputedStyles (computeStyles l) (computeStyles r)"
| "computeStyles (DynamicFn k props fn) = Some (fn props)"

section \<open>Style cache\<close>

record CacheStats =
  calls :: nat
  hits :: nat
  misses :: nat
  bailouts :: nat

record StyleCache =
  cache :: "string \<rightharpoonup> string"
  stats :: CacheStats

definition createStyleCache :: StyleCache where
  "createStyleCache =
     \<lparr>cache = Map.empty, stats = \<lparr>calls = 0, hits = 0, misses = 0, bailouts = 0\<rparr>\<rparr>"

text \<open>JavaScript truthiness of a \<open>string | null | undefined\<close>: a non-empty string.\<close>

definition truthy :: "string option \<Rightarrow> bool" where
  "truthy v = (case v of None \<Rightarrow> False | Some s \<Rightarrow> s \<noteq> [])"

definition StyleCache_get :: "string \<Rightarrow> StyleCache \<Rightarrow> string option \<times> StyleCache" where
  "StyleCache_get k this =
     (let this1 = this\<lparr>stats := (stats this)\<lparr>calls := calls (stats this) + 1\<rparr>\<rparr>;
          existing = cache this1 k
      in if truthy existing
         then (existing, this1\<lparr>stats := (stats this1)\<lparr>hits := hits (stats this1) + 1\<rparr>\<rparr>)
         else (None, this1\<lparr>stats := (stats this1)\<lparr>misses := misses (stats this1) + 1\<rparr>\<rparr>))"

definition StyleCache_set :: "string \<Rightarrow> string \<Rightarrow> StyleCache \<Rightarrow> StyleCache" where
  "StyleCache_set k val this = this\<lparr>cache := (cache this)(k \<mapsto> val)\<rparr>"

section \<open>useSystem\<close>

definition getCompoundKey :: "AbstractStyle \<Rightarrow> AbstractStyle \<Rightarrow> CacheKey" where
  "getCompoundKey root sx = getKey (mergeStyles root sx)"

text \<open>
  The state a request runs in: the cache found in the React context (\<open>null\<close> without a
  provider) and the arguments of every call of the external \<open>createEmotionClassname\<close>
  made so far, in order. The debug logging of the source has no effect on either.
\<close>

record Session =
  styleCacheCtx :: "StyleCache option"
  emotionCalls :: "(CSS option \<times> CSS option) list"

type_synonym Emotion = "CSS option \<times> CSS option \<Rightarrow> string"

definition useSystem ::
  "Emotion \<Rightarrow> AbstractStyle \<Rightarrow> AbstractStyle \<Rightarrow> Session \<Rightarrow> string \<times> Session" where
  "useSystem createEmotionClassname root sx s =
     (let k = getCompoundKey root sx in
      if k = NULL_STYLE_KEY then ([], s)
      else
        let (existingClassNames, cache1) =
              (case styleCacheCtx s of
                 None \<Rightarrow> (None, None)
               | Some c \<Rightarrow> (let (v, c') = StyleCache_get k c in (v, Some c')))
        in if truthy existingClassNames
           then (the existingClassNames, s\<lparr>styleCacheCtx := cache1\<rparr>)
           else
             let computedRoot = (if isNullStyle root then None else computeStyles root);
                 computedSx = (if isNullStyle sx then None else computeStyles sx);
                 classNames = createEmotionClassname (computedRoot, computedSx);
                 cache2 = map_option (StyleCache_set k classNames) cache1
             in (classNames,
                 \<lparr>styleCacheCtx = cache2,
                  emotionCalls = emotionCalls s @ [(computedRoot, computedSx)]\<rparr>))"

definition useStyles :: "Emotion \<Rightarrow> AbstractStyle \<Rightarrow> Session \<Rightarrow> string \<times> Session" where
  "useStyles createEmotionClassname style s = useSystem createEmotionClassname Null style s"

text \<open>A sequence of requests, each a pair \<open>(__root, sx)\<close>, served one after the other.\<close>

fun useSystem_all ::
  "Emotion \<Rightarrow> (AbstractStyle \<times> AbstractStyle) list \<Rightarrow> Session \<Rightarrow> string list \<times> Session" where
  "useSystem_all createEmotionClassname [] s = ([], s)"
| "useSystem_all createEmotionClassname (rq # rqs) s =
     (let (cls, s1) = useSystem createEmotionClassname (fst rq) (snd rq) s;
          (clss, s2) = useSystem_all createEmotionClassname rqs s1
      in (cls # clss, s2))"

text \<open>A client of the cache calls \<open>get\<close> and \<open>set\<close> in any order.\<close>

datatype cacheOp = Get string | Set string string

fun StyleCache_run :: "cacheOp list \<Rightarrow> StyleCache \<Rightarrow> StyleCache" where
  "StyleCache_run [] c = c"
| "StyleCache_run (Get k # ops) c = StyleCache_run ops (snd (StyleCache_get k c))"
| "StyleCache_run (Set k v # ops) c = StyleCache_run ops (StyleCache_set k v c)"

text \<open>
  A materializer that returns a fixed class name and a session with a newly created
  cache, used as concrete inputs.
\<close>

definition sampleEmotion :: Emotion where
  "sampleEmotion x = ''css-0''"

definition freshSession :: Session where
  "freshSession = \<lparr>styleCacheCtx = Some createStyleCache, emotionCalls = []\<rparr>"

section \<open>Properties of the composer\<close>

lemma isNullStyle_iff [simp]: "isNullStyle t = (t = Null)"
  by (cases t) (simp_all add: isNullStyle_def)

lemma mergeStyles_Null_left: "mergeStyles Null r = r"
  by (simp add: mergeStyles.simps [of Null r] nullStyle_def)

lemma mergeStyles_Null_right: "mergeStyles l Null = l"
  by (simp add: mergeStyles.simps [of l Null] nullStyle_def)

lemma mergeStyles_same_key:
  "l \<noteq> Null \<Longrightarrow> r \<noteq> Null \<Longrightarrow> key l = key r \<Longrightarrow> mergeStyles l r = l"
  by (simp add: mergeStyles.simps [of l r])

lemma mergeStyles_reassoc:
  "l \<noteq> Null \<Longrightarrow> key l \<noteq> k \<Longrightarrow>
   mergeStyles l (Merge k r1 r2) = mergeStyles (mergeStyles l r1) r2"
  by (simp add: mergeStyles.simps [of l "Merge k r1 r2"])

lemma mergeStyles_build:
  "l \<noteq> Null \<Longrightarrow> r \<noteq> Null \<Longrightarrow> key l \<noteq> key r \<Longrightarrow> \<not> isMerge r \<Longrightarrow>
   mergeStyles l r = Merge (key l @ '' '' @ key r) l r"
  by (subst mergeStyles.simps) (cases r; simp)

lemma getKey_simps [simp]:
  "getKey Null = NULL_STYLE_KEY"
  "t \<noteq> Null \<Longrightarrow> getKey t = key t"
  by (simp_all add: getKey_def)

lemma keyClash_Merge:
  "l \<noteq> Null \<Longrightarrow> keyClash l (Merge k r1 r2) =
     (key l = k \<or> keyClash l r1 \<or> keyClash (mergeStyles l r1) r2)"
  by (simp add: keyClash.simps [of l "Merge k r1 r2"])

lemma keyClash_same: "l \<noteq> Null \<Longrightarrow> r \<noteq> Null \<Longrightarrow> key l = key r \<Longrightarrow> keyClash l r"
  by (simp add: keyClash.simps [of l r])

lemma mergeStyles_leaf_cases:
  assumes "\<not> isMerge r"
  shows "mergeStyles l r = l \<or> mergeStyles l r = r
         \<or> (l \<noteq> Null \<and> r \<noteq> Null \<and> key l \<noteq> key r
             \<and> mergeStyles l r = Merge (key l @ '' '' @ key r) l r)"
proof -
  consider "l = Null" | "r = Null" | "l \<noteq> Null" "r \<noteq> Null" "key l = key r"
    | "l \<noteq> Null" "r \<noteq> Null" "key l \<noteq> key r"
    by blast
  then show ?thesis
  proof cases
    case 1
    then show ?thesis by (simp add: mergeStyles_Null_left)
  next
    case 2
    then show ?thesis by (simp add: mergeStyles_Null_right)
  next
    case 3
    then show ?thesis by (simp add: mergeStyles_same_key)
  next
    case 4
    with assms show ?thesis by (simp add: mergeStyles_build)
  qed
qed

lemma mergeStyles_Merge_cases:
  "mergeStyles l (Merge k r1 r2) = l \<or> mergeStyles l (Merge k r1 r2) = Merge k r1 r2
   \<or> (l \<noteq> Null \<and> key l \<noteq> k
       \<and> mergeStyles l (Merge k r1 r2) = mergeStyles (mergeStyles l r1) r2)"
proof -
  consider "l = Null" | "l \<noteq> Null" "key l = k" | "l \<noteq> Null" "key l \<noteq> k"
    by blast
  then show ?thesis
  proof cases
    case 1
    then show ?thesis by (simp add: mergeStyles_Null_left)
  next
    case 2
    then show ?thesis by (simp add: mergeStyles_same_key)
  next
    case 3
    then show ?thesis by (simp add: mergeStyles_reassoc)
  qed
qed

lemma wellFormed_mergeStyles:
  "wellFormed l \<Longrightarrow> wellFormed r \<Longrightarrow> wellFormed (mergeStyles l r)"
proof (induction r arbitrary: l)
  case (Merge k r1 r2)
  have "wellFormed (mergeStyles (mergeStyles l r1) r2)"
    using Merge.IH(1) [of l] Merge.IH(2) [of "mergeStyles l r1"] Merge.prems by simp
  with Merge.prems mergeStyles_Merge_cases [of l k r1 r2] show ?case
    by auto
next
  case Null
  then show ?case by (simp add: mergeStyles_Null_right)
next
  case (Static k c)
  with mergeStyles_leaf_cases [of "Static k c" l] show ?case by auto
next
  case (DynamicObj k c)
  with mergeStyles_leaf_cases [of "DynamicObj k c" l] show ?case by auto
next
  case (DynamicFn k p f)
  with mergeStyles_leaf_cases [of "DynamicFn k p f" l] show ?case by auto
qed

lemma composed_wellFormed: "composed h t \<Longrightarrow> wellFormed t"
  by (induction rule: composed.induct)
     (simp_all add: nullStyle_def createStyle_def dynamicStyle_def createDynamicStyle_def
        wellFormed_mergeStyles)

lemma wellFormed_leftLeaning: "wellFormed t \<Longrightarrow> leftLeaning t"
  by (induction t) simp_all

lemma wellFormed_rebuild: "wellFormed (Merge k r1 r2) \<Longrightarrow> mergeStyles r1 r2 = Merge k r1 r2"
  by (simp add: mergeStyles_build)

lemma mergeStyles_key_noclash:
  "wellFormed l \<Longrightarrow> wellFormed r \<Longrightarrow> l \<noteq> Null \<Longrightarrow> r \<noteq> Null \<Longrightarrow> \<not> keyClash l r \<Longrightarrow>
   mergeStyles l r \<noteq> Null \<and> key (mergeStyles l r) = key l @ '' '' @ key r"
proof (induction r arbitrary: l)
  case (Merge k r1 r2)
  from Merge.prems have ne: "key l \<noteq> k" and c1: "\<not> keyClash l r1"
    and c2: "\<not> keyClash (mergeStyles l r1) r2"
    by (auto simp: keyClash_Merge)
  from Merge.prems have r: "r1 \<noteq> Null" "r2 \<noteq> Null" "k = key r1 @ '' '' @ key r2"
    "wellFormed r1" "wellFormed r2"
    by simp_all
  have m1: "mergeStyles l r1 \<noteq> Null \<and> key (mergeStyles l r1) = key l @ '' '' @ key r1"
    using Merge.IH(1) [of l] Merge.prems r c1 by simp
  have k1: "wellFormed (mergeStyles l r1)"
    using Merge.prems r by (simp add: wellFormed_mergeStyles)
  have m2: "mergeStyles (mergeStyles l r1) r2 \<noteq> Null
      \<and> key (mergeStyles (mergeStyles l r1) r2) = key (mergeStyles l r1) @ '' '' @ key r2"
    using Merge.IH(2) [of "mergeStyles l r1"] k1 r m1 c2 by simp
  have "mergeStyles l (Merge k r1 r2) = mergeStyles (mergeStyles l r1) r2"
    using Merge.prems ne by (simp add: mergeStyles_reassoc)
  with m1 m2 r show ?case by simp
next
  case Null
  then show ?case by simp
next
  case (Static k c)
  then have "key l \<noteq> k" using keyClash_same [of l "Static k c"] by auto
  with Static show ?case by (simp add: mergeStyles_build)
next
  case (DynamicObj k c)
  then have "key l \<noteq> k" using keyClash_same [of l "DynamicObj k c"] by auto
  with DynamicObj show ?case by (simp add: mergeStyles_build)
next
  case (DynamicFn k p f)
  then have "key l \<noteq> k" using keyClash_same [of l "DynamicFn k p f"] by auto
  with DynamicFn show ?case by (simp add: mergeStyles_build)
qed


text \<open>
  As long as the shortcut on equal keys is taken in none of the merges involved, the key
  of a merge is the two keys joined by a space, and the keys of the two associations
  agree.
\<close>

lemma mergeStyles_key_assoc_without_shortcut:
  assumes "composed h a" and "composed h b" and "composed h c"
    and "\<not> keyClash a b" and "\<not> keyClash (mergeStyles a b) c"
    and "\<not> keyClash b c" and "\<not> keyClash a (mergeStyles b c)"
  shows "getKey (mergeStyles (mergeStyles a b) c) = getKey (mergeStyles a (mergeStyles b c))"
proof (cases "a = Null \<or> b = Null \<or> c = Null")
  case True
  then show ?thesis
    by (auto simp: mergeStyles_Null_left mergeStyles_Null_right)
next
  case False
  then have n: "a \<noteq> Null" "b \<noteq> Null" "c \<noteq> Null" by simp_all
  have w: "wellFormed a" "wellFormed b" "wellFormed c"
    using assms(1-3) by (simp_all add: composed_wellFormed)
  have ab: "mergeStyles a b \<noteq> Null \<and> key (mergeStyles a b) = key a @ '' '' @ key b"
    using mergeStyles_key_noclash [of a b] w n assms(4) by simp
  have bc: "mergeStyles b c \<noteq> Null \<and> key (mergeStyles b c) = key b @ '' '' @ key c"
    using mergeStyles_key_noclash [of b c] w n assms(6) by simp
  have wab: "wellFormed (mergeStyles a b)" and wbc: "wellFormed (mergeStyles b c)"
    using w by (simp_all add: wellFormed_mergeStyles)
  have l: "mergeStyles (mergeStyles a b) c \<noteq> Null
      \<and> key (mergeStyles (mergeStyles a b) c) = key (mergeStyles a b) @ '' '' @ key c"
    using mergeStyles_key_noclash [of "mergeStyles a b" c] wab w n ab assms(5) by simp
  have r: "mergeStyles a (mergeStyles b c) \<noteq> Null
      \<and> key (mergeStyles a (mergeStyles b c)) = key a @ '' '' @ key (mergeStyles b c)"
    using mergeStyles_key_noclash [of a "mergeStyles b c"] wbc w n bc assms(7) by simp
  from l r ab bc show ?thesis by simp
qed

lemma composed_styleA: "composed h styleA"
  unfolding styleA_def by (rule composed.dynamicObj)

lemma composed_styleB: "composed h styleB"
  unfolding styleB_def by (rule composed.dynamicObj)

lemma composed_styleC: "composed h styleC"
  unfolding styleC_def by (rule composed.dynamicObj)

text \<open>
  C1. The note in \<open>mergeStyles\<close> says that \<open>merge(a, merge(b, c))\<close> and
  \<open>merge(merge(a, b), c)\<close> are the same style and that their cache keys are wanted to be
  the same as well. The code does not deliver that when \<open>b\<close> and \<open>c\<close> have the same key:
  for the dynamic styles \<open>a = {a: 1}\<close> and \<open>b = c = {b: 2}\<close>, the inner merge of
  \<open>merge(a, merge(b, b))\<close> returns \<open>b\<close> and the key is that of \<open>a\<close>, a space, that of \<open>b\<close>,
  while \<open>merge(merge(a, b), b)\<close> appends the key of \<open>b\<close> a second time.
\<close>

theorem mergeStyles_key_assoc_fails:
  "composed id styleA \<and> composed id styleB
   \<and> getKey (mergeStyles (mergeStyles styleA styleB) styleB)
       = key styleA @ '' '' @ key styleB @ '' '' @ key styleB
   \<and> getKey (mergeStyles styleA (mergeStyles styleB styleB))
       = key styleA @ '' '' @ key styleB
   \<and> getKey (mergeStyles (mergeStyles styleA styleB) styleB)
       \<noteq> getKey (mergeStyles styleA (mergeStyles styleB styleB))"
proof -
  have "getKey (mergeStyles (mergeStyles styleA styleB) styleB)
       = key styleA @ '' '' @ key styleB @ '' '' @ key styleB"
    by code_simp
  moreover have "getKey (mergeStyles styleA (mergeStyles styleB styleB))
       = key styleA @ '' '' @ key styleB"
    by code_simp
  moreover have "getKey (mergeStyles (mergeStyles styleA styleB) styleB)
       \<noteq> getKey (mergeStyles styleA (mergeStyles styleB styleB))"
    by code_simp
  ultimately show ?thesis
    by (simp add: composed_styleA composed_styleB)
qed

text \<open>
  C3 (amended). For nodes \<open>l\<close> and \<open>r\<close> built by the composer, no merge node of
  \<open>mergeStyles l r\<close> has a merge node as its right child; and when \<open>r\<close> is a merge node
  with children \<open>r1\<close>, \<open>r2\<close> whose key differs from the key of \<open>l\<close>, the result is
  \<open>mergeStyles (mergeStyles l r1) r2\<close>.
\<close>

theorem mergeStyles_left_leaning:
  assumes "composed h l" and "composed h r"
  shows "leftLeaning (mergeStyles l r)
         \<and> (r = Merge k r1 r2 \<and> getKey l \<noteq> getKey r \<longrightarrow>
              mergeStyles l r = mergeStyles (mergeStyles l r1) r2)"
proof -
  have w: "wellFormed l" "wellFormed r"
    using assms by (simp_all add: composed_wellFormed)
  then have "leftLeaning (mergeStyles l r)"
    by (simp add: wellFormed_mergeStyles wellFormed_leftLeaning)
  moreover have "mergeStyles l r = mergeStyles (mergeStyles l r1) r2"
    if r: "r = Merge k r1 r2" and ne: "getKey l \<noteq> getKey r"
  proof (cases "l = Null")
    case True
    with w r show ?thesis
      by (simp add: mergeStyles_Null_left wellFormed_rebuild)
  next
    case False
    with r ne show ?thesis by (simp add: mergeStyles_reassoc)
  qed
  ultimately show ?thesis by blast
qed

lemma mergeStyles_styleA_styleB:
  "mergeStyles styleA styleB = Merge (key styleA @ '' '' @ key styleB) styleA styleB"
proof -
  have "key styleA \<noteq> key styleB"
    by code_simp
  moreover have "styleA \<noteq> Null" "styleB \<noteq> Null" "\<not> isMerge styleB"
    by (simp_all add: styleA_def styleB_def dynamicStyle_def)
  ultimately show ?thesis
    by (rule_tac mergeStyles_build)
qed

text \<open>
  When the keys of \<open>l\<close> and \<open>r\<close> are equal the left node is returned instead, which is not
  what re-association would build.
\<close>

theorem mergeStyles_left_leaning_counterexample:
  "composed id (mergeStyles styleA styleB)
   \<and> mergeStyles styleA styleB = Merge (key styleA @ '' '' @ key styleB) styleA styleB
   \<and> mergeStyles (mergeStyles styleA styleB) (mergeStyles styleA styleB)
       \<noteq> mergeStyles (mergeStyles (mergeStyles styleA styleB) styleA) styleB"
proof -
  have "getKey (mergeStyles (mergeStyles styleA styleB) (mergeStyles styleA styleB))
       \<noteq> getKey (mergeStyles (mergeStyles (mergeStyles styleA styleB) styleA) styleB)"
    by code_simp
  then have "mergeStyles (mergeStyles styleA styleB) (mergeStyles styleA styleB)
       \<noteq> mergeStyles (mergeStyles (mergeStyles styleA styleB) styleA) styleB"
    by auto
  moreover have "composed id (mergeStyles styleA styleB)"
    by (rule composed.merge [OF composed_styleA composed_styleB])
  ultimately show ?thesis
    using mergeStyles_styleA_styleB by blast
qed

theorem mergeStyles_left_leaning_witness:
  "composed id styleC \<and> composed id (mergeStyles styleA styleB)
   \<and> mergeStyles styleA styleB = Merge (key styleA @ '' '' @ key styleB) styleA styleB
   \<and> getKey styleC \<noteq> getKey (mergeStyles styleA styleB)
   \<and> leftLeaning (mergeStyles styleC (mergeStyles styleA styleB))
   \<and> mergeStyles styleC (mergeStyles styleA styleB)
       = mergeStyles (mergeStyles styleC styleA) styleB"
proof -
  have c: "composed id styleC" "composed id (mergeStyles styleA styleB)"
    by (rule composed_styleC, rule composed.merge [OF composed_styleA composed_styleB])
  have k: "getKey styleC \<noteq> getKey (mergeStyles styleA styleB)"
    by code_simp
  note mergeStyles_left_leaning [OF c, of "key styleA @ '' '' @ key styleB" styleA styleB]
  with c k mergeStyles_styleA_styleB show ?thesis
    by blast
qed

text \<open>
  C6. Merging two nodes, neither of them the null style, whose keys are equal returns
  the left node itself; no merge node is built.
\<close>

theorem mergeStyles_equal_keys_returns_left:
  assumes "\<not> isNullStyle a" and "\<not> isNullStyle b" and "getKey a = getKey b"
  shows "mergeStyles a b = a"
  using assms by (simp add: mergeStyles_same_key)

theorem mergeStyles_equal_keys_returns_left_witness:
  "\<not> isNullStyle (dynamicStyle [(''color'', JStr ''red'')])
   \<and> \<not> isNullStyle (createStyle id [(''color'', JStr ''red'')])
   \<and> getKey (dynamicStyle [(''color'', JStr ''red'')])
       = getKey (createStyle id [(''color'', JStr ''red'')])
   \<and> mergeStyles (dynamicStyle [(''color'', JStr ''red'')])
         (createStyle id [(''color'', JStr ''red'')])
       = dynamicStyle [(''color'', JStr ''red'')]"
  using mergeStyles_equal_keys_returns_left
          [of "dynamicStyle [(''color'', JStr ''red'')]"
              "createStyle id [(''color'', JStr ''red'')]"]
  by (simp add: dynamicStyle_def createStyle_def)

text \<open>
  C7. The null style is a two-sided identity of \<open>mergeStyles\<close>: merging any node with it
  returns that node unchanged, so the key is unchanged too, and merging the null style
  with itself gives the null style.
\<close>

theorem mergeStyles_null_identity:
  "mergeStyles a nullStyle = a \<and> mergeStyles nullStyle a = a
   \<and> getKey (mergeStyles a nullStyle) = getKey a
   \<and> getKey (mergeStyles nullStyle a) = getKey a
   \<and> mergeStyles nullStyle nullStyle = nullStyle"
  by (simp add: nullStyle_def mergeStyles_Null_left mergeStyles_Null_right)

section \<open>Properties of keys and of style computation\<close>

lemma computeStyles_Merge_cases:
  "(computeStyles l = None \<longrightarrow> computeStyles (Merge k l r) = computeStyles r)
   \<and> (computeStyles r = None \<longrightarrow> computeStyles (Merge k l r) = computeStyles l)
   \<and> (computeStyles l = Some lv \<and> computeStyles r = Some rv \<longrightarrow>
        computeStyles (Merge k l r) = Some (deepmerge lv rv))"
  by (auto simp: mergeComputedStyles_def split: option.splits)

lemma computeStyles_Merge_example:
  "computeStyles (Merge k (createStyle hashString [(''a'', JNum 1)])
                    (createStyle hashString [(''a'', JNum 2), (''b'', JNum 3)]))
     = Some [(''a'', JNum 2), (''b'', JNum 3)]"
proof -
  have "deepmerge [(''a'', JNum 1)] [(''a'', JNum 2), (''b'', JNum 3)]
      = [(''a'', JNum 2), (''b'', JNum 3)]"
    by code_simp
  then show ?thesis
    by (simp add: createStyle_def mergeComputedStyles_def)
qed

text \<open>
  C5. Resolving a merge node resolves both children, returns the other side when one
  side resolves to nothing, and otherwise deep-merges the two style objects, the values
  of the right one overriding those of the left one under the same property. The note
  in \<open>mergeStyles\<close> says so of array-valued (responsive) properties too: the right array
  overrides the left one. The code does not deliver that: \<open>deepmerge\<close> with its default
  options concatenates two arrays. Merging the dynamic styles \<open>{margin: [1, 2]}\<close> and
  \<open>{margin: [3, 4]}\<close> and resolving the result gives \<open>{margin: [1, 2, 3, 4]}\<close>, not
  \<open>{margin: [3, 4]}\<close>.
\<close>

theorem computeStyles_merge_arrays:
  "computeStyles (mergeStyles (dynamicStyle [(''margin'', JArr [JNum 1, JNum 2])])
                    (dynamicStyle [(''margin'', JArr [JNum 3, JNum 4])]))
     = Some [(''margin'', JArr [JNum 1, JNum 2, JNum 3, JNum 4])]
   \<and> computeStyles (mergeStyles (dynamicStyle [(''margin'', JArr [JNum 1, JNum 2])])
                    (dynamicStyle [(''margin'', JArr [JNum 3, JNum 4])]))
     \<noteq> Some [(''margin'', JArr [JNum 3, JNum 4])]"
  by code_simp






text \<open>
  C10. An applier returned by \<open>createDynamicStyle\<close> puts a string-valued props value into
  the key as it is and serialises any other props value with \<open>JSON.stringify\<close>; the string
  \<open>"1"\<close> and the number \<open>1\<close> are distinct props values with the same key.
\<close>

theorem createDynamicStyle_props_key:
  "key (createDynamicStyle hashString uuid fn (JStr s)) = hashString uuid @ ''('' @ s @ '')''
   \<and> key (createDynamicStyle hashString uuid fn JNull)
       = hashString uuid @ ''('' @ stringify JNull @ '')''
   \<and> key (createDynamicStyle hashString uuid fn (JBool b))
       = hashString uuid @ ''('' @ stringify (JBool b) @ '')''
   \<and> key (createDynamicStyle hashString uuid fn (JNum n))
       = hashString uuid @ ''('' @ stringify (JNum n) @ '')''
   \<and> key (createDynamicStyle hashString uuid fn (JArr xs))
       = hashString uuid @ ''('' @ stringify (JArr xs) @ '')''
   \<and> key (createDynamicStyle hashString uuid fn (JObj kvs))
       = hashString uuid @ ''('' @ stringify (JObj kvs) @ '')''
   \<and> key (createDynamicStyle hashString uuid fn JUndefined)
       = hashString uuid @ ''(undefined)''
   \<and> JStr ''1'' \<noteq> JNum 1
   \<and> key (createDynamicStyle hashString uuid fn (JStr ''1''))
       = key (createDynamicStyle hashString uuid fn (JNum 1))"
proof -
  have "stringify (JNum 1) = ''1''"
    by code_simp
  then show ?thesis
    by (simp add: createDynamicStyle_def JSON_stringify_def)
qed

section \<open>Properties of the cache and of useSystem\<close>

lemma StyleCache_get_hit:
  assumes "cache c k = Some v" and "v \<noteq> []"
  shows "StyleCache_get k c =
    (Some v, c\<lparr>stats := (stats c)\<lparr>calls := calls (stats c) + 1, hits := hits (stats c) + 1\<rparr>\<rparr>)"
  using assms by (simp add: StyleCache_get_def truthy_def Let_def)

lemma StyleCache_get_miss:
  assumes "cache c k = None \<or> cache c k = Some []"
  shows "StyleCache_get k c =
    (None, c\<lparr>stats := (stats c)\<lparr>calls := calls (stats c) + 1, misses := misses (stats c) + 1\<rparr>\<rparr>)"
  using assms by (auto simp: StyleCache_get_def truthy_def Let_def)

lemma StyleCache_get_balance:
  "calls (stats (snd (StyleCache_get k c))) = calls (stats c) + 1
   \<and> hits (stats (snd (StyleCache_get k c))) + misses (stats (snd (StyleCache_get k c)))
       = hits (stats c) + misses (stats c) + 1"
  by (simp add: StyleCache_get_def Let_def)

lemma StyleCache_run_balance:
  "calls (stats c) = hits (stats c) + misses (stats c) \<Longrightarrow>
   calls (stats (StyleCache_run ops c))
     = hits (stats (StyleCache_run ops c)) + misses (stats (StyleCache_run ops c))"
proof (induction ops c rule: StyleCache_run.induct)
  case (1 c)
  then show ?case by simp
next
  case (2 k ops c)
  then show ?case using StyleCache_get_balance [of k c] by simp
next
  case (3 k v ops c)
  then show ?case by (simp add: StyleCache_set_def)
qed

text \<open>
  C4 (amended). Every lookup adds one to \<open>calls\<close> and leaves the mapping as it is. If the
  key is stored with a non-empty artifact the lookup adds one to \<open>hits\<close> and returns the
  artifact; if the key is absent or stored with the empty string it adds one to
  \<open>misses\<close> and returns not-found. After any sequence of lookups and stores on a new
  cache, \<open>calls = hits + misses\<close>.
\<close>

theorem StyleCache_get_bookkeeping:
  "calls (stats (snd (StyleCache_get k c))) = calls (stats c) + 1
   \<and> cache (snd (StyleCache_get k c)) = cache c
   \<and> (cache c k = Some v \<and> v \<noteq> [] \<longrightarrow>
        fst (StyleCache_get k c) = Some v
        \<and> hits (stats (snd (StyleCache_get k c))) = hits (stats c) + 1
        \<and> misses (stats (snd (StyleCache_get k c))) = misses (stats c))
   \<and> (cache c k = None \<or> cache c k = Some [] \<longrightarrow>
        fst (StyleCache_get k c) = None
        \<and> hits (stats (snd (StyleCache_get k c))) = hits (stats c)
        \<and> misses (stats (snd (StyleCache_get k c))) = misses (stats c) + 1)
   \<and> calls (stats (StyleCache_run ops createStyleCache))
       = hits (stats (StyleCache_run ops createStyleCache))
         + misses (stats (StyleCache_run ops createStyleCache))"
proof -
  have "calls (stats createStyleCache)
      = hits (stats createStyleCache) + misses (stats createStyleCache)"
    by (simp add: createStyleCache_def)
  then have "calls (stats (StyleCache_run ops createStyleCache))
       = hits (stats (StyleCache_run ops createStyleCache))
         + misses (stats (StyleCache_run ops createStyleCache))"
    by (rule StyleCache_run_balance)
  moreover have "cache (snd (StyleCache_get k c)) = cache c"
    by (simp add: StyleCache_get_def Let_def)
  ultimately show ?thesis
    using StyleCache_get_balance [of k c]
    by (auto simp: StyleCache_get_hit StyleCache_get_miss)
qed

theorem StyleCache_get_bookkeeping_witness:
  "cache (StyleCache_set ''k'' ''css-0'' createStyleCache) ''k'' = Some ''css-0''
   \<and> fst (StyleCache_get ''k'' (StyleCache_set ''k'' ''css-0'' createStyleCache)) = Some ''css-0''
   \<and> hits (stats (snd (StyleCache_get ''k'' (StyleCache_set ''k'' ''css-0'' createStyleCache)))) = 1
   \<and> cache createStyleCache ''k'' = None
   \<and> fst (StyleCache_get ''k'' createStyleCache) = None
   \<and> misses (stats (snd (StyleCache_get ''k'' createStyleCache))) = 1"
  using StyleCache_get_bookkeeping [of "''k''" "StyleCache_set ''k'' ''css-0'' createStyleCache" "''css-0''" "[]"]
    StyleCache_get_bookkeeping [of "''k''" createStyleCache "[]" "[]"]
  by (simp add: StyleCache_set_def createStyleCache_def)

text \<open>
  A key stored with the empty string is present in the mapping, yet the lookup counts a
  miss and returns not-found: \<open>get\<close> tests the stored string for truthiness.
\<close>

theorem StyleCache_get_bookkeeping_counterexample:
  "cache (StyleCache_set ''k'' [] createStyleCache) ''k'' = Some []
   \<and> fst (StyleCache_get ''k'' (StyleCache_set ''k'' [] createStyleCache)) = None
   \<and> hits (stats (snd (StyleCache_get ''k'' (StyleCache_set ''k'' [] createStyleCache)))) = 0
   \<and> misses (stats (snd (StyleCache_get ''k'' (StyleCache_set ''k'' [] createStyleCache)))) = 1"
  by (simp add: StyleCache_get_def StyleCache_set_def createStyleCache_def truthy_def Let_def)

text \<open>
  C8. When the merged node has the key of the null style, as for the null style merged
  with itself, \<open>useSystem\<close> returns the empty string and leaves the session, that is the
  cache mapping, its counters and the materializer, untouched.
\<close>

theorem useSystem_sentinel:
  "getCompoundKey nullStyle nullStyle = NULL_STYLE_KEY
   \<and> (getCompoundKey root sx = NULL_STYLE_KEY \<longrightarrow>
        useSystem createEmotionClassname root sx s = ([], s))"
  by (simp add: useSystem_def getCompoundKey_def nullStyle_def mergeStyles_Null_left)

theorem useSystem_sentinel_witness:
  "getCompoundKey Null Null = NULL_STYLE_KEY
   \<and> useSystem sampleEmotion Null Null freshSession = ([], freshSession)"
  using useSystem_sentinel [of Null Null sampleEmotion freshSession]
  by (simp add: nullStyle_def)


lemma useSystem_hit:
  assumes "styleCacheCtx s = Some c" and "cache c k = Some v" and "v \<noteq> []"
    and "getCompoundKey root sx = k" and "k \<noteq> NULL_STYLE_KEY"
  shows "useSystem emo root sx s =
    (v, s\<lparr>styleCacheCtx := Some (c\<lparr>stats := (stats c)
            \<lparr>calls := calls (stats c) + 1, hits := hits (stats c) + 1\<rparr>\<rparr>)\<rparr>)"
  using assms by (simp add: useSystem_def StyleCache_get_hit truthy_def)

lemma useSystem_miss:
  assumes "styleCacheCtx s = Some c" and "cache c k = None \<or> cache c k = Some []"
    and "getCompoundKey root sx = k" and "k \<noteq> NULL_STYLE_KEY"
    and "x = (if isNullStyle root then None else computeStyles root,
              if isNullStyle sx then None else computeStyles sx)"
  shows "useSystem emo root sx s =
    (emo x,
     \<lparr>styleCacheCtx = Some (StyleCache_set k (emo x) (c\<lparr>stats := (stats c)
            \<lparr>calls := calls (stats c) + 1, misses := misses (stats c) + 1\<rparr>\<rparr>)),
      emotionCalls = emotionCalls s @ [x]\<rparr>)"
  using assms by (simp add: useSystem_def StyleCache_get_miss truthy_def Let_def)

lemma useSystem_all_hits:
  assumes "styleCacheCtx s = Some c" and "cache c k = Some v" and "v \<noteq> []"
    and "k \<noteq> NULL_STYLE_KEY"
    and "\<forall>rq \<in> set rqs. getCompoundKey (fst rq) (snd rq) = k"
  shows "useSystem_all emo rqs s =
    (replicate (length rqs) v,
     s\<lparr>styleCacheCtx := Some (c\<lparr>stats := (stats c)
            \<lparr>calls := calls (stats c) + length rqs, hits := hits (stats c) + length rqs\<rparr>\<rparr>)\<rparr>)"
  using assms
proof (induction rqs arbitrary: s c)
  case Nil
  then show ?case by simp
next
  case (Cons rq rqs)
  let ?c1 = "c\<lparr>stats := (stats c)\<lparr>calls := calls (stats c) + 1, hits := hits (stats c) + 1\<rparr>\<rparr>"
  let ?s1 = "s\<lparr>styleCacheCtx := Some ?c1\<rparr>"
  have step: "useSystem emo (fst rq) (snd rq) s = (v, ?s1)"
    using Cons.prems by (simp add: useSystem_hit)
  have rest: "useSystem_all emo rqs ?s1 =
    (replicate (length rqs) v,
     ?s1\<lparr>styleCacheCtx := Some (?c1\<lparr>stats := (stats ?c1)
            \<lparr>calls := calls (stats ?c1) + length rqs, hits := hits (stats ?c1) + length rqs\<rparr>\<rparr>)\<rparr>)"
    using Cons.prems by (intro Cons.IH [where c = ?c1]) simp_all
  show ?case
    unfolding useSystem_all.simps step Let_def prod.case rest by simp
qed

text \<open>
  C2. The materializer of the program is \<open>css\<close> of \<open>@emotion/css\<close>; what it returns is a
  class name, never the empty string. With such a materializer, in a session whose
  cache has no entry for the key \<open>k\<close>, a sequence of \<open>N \<ge> 1\<close> requests whose merged nodes
  all have the key \<open>k\<close>, not the key of the null style, calls the materializer exactly
  once, for the first request; the sequence adds \<open>N - 1\<close> to \<open>hits\<close> and \<open>1\<close> to \<open>misses\<close>, so
  that on a cache whose counters are those of a new cache \<open>hits\<close> is \<open>N - 1\<close> and \<open>misses\<close>
  is \<open>1\<close> afterwards.
\<close>

theorem useSystem_materializes_once:
  assumes "styleCacheCtx s = Some c" and "cache c k = None" and "k \<noteq> NULL_STYLE_KEY"
    and "\<forall>rq \<in> set ((root, sx) # rqs). getCompoundKey (fst rq) (snd rq) = k"
    and "x = (if isNullStyle root then None else computeStyles root,
              if isNullStyle sx then None else computeStyles sx)"
    and "\<forall>y. createEmotionClassname y \<noteq> []"
  shows "emotionCalls (snd (useSystem_all createEmotionClassname ((root, sx) # rqs) s))
           = emotionCalls s @ [x]
       \<and> map_option stats
           (styleCacheCtx (snd (useSystem_all createEmotionClassname ((root, sx) # rqs) s)))
           = Some \<lparr>calls = calls (stats c) + length ((root, sx) # rqs),
                   hits = hits (stats c) + (length ((root, sx) # rqs) - 1),
                   misses = misses (stats c) + 1,
                   bailouts = bailouts (stats c)\<rparr>
       \<and> (stats c = stats createStyleCache \<longrightarrow>
           map_option (\<lambda>c'. (hits (stats c'), misses (stats c')))
             (styleCacheCtx (snd (useSystem_all createEmotionClassname ((root, sx) # rqs) s)))
           = Some (length ((root, sx) # rqs) - 1, 1))
       \<and> fst (useSystem_all createEmotionClassname ((root, sx) # rqs) s)
           = replicate (length ((root, sx) # rqs)) (createEmotionClassname x)"
proof -
  let ?v = "createEmotionClassname x"
  let ?c1 = "StyleCache_set k ?v (c\<lparr>stats := (stats c)
            \<lparr>calls := calls (stats c) + 1, misses := misses (stats c) + 1\<rparr>\<rparr>)"
  let ?s1 = "\<lparr>styleCacheCtx = Some ?c1, emotionCalls = emotionCalls s @ [x]\<rparr>"
  have v: "?v \<noteq> []"
    using assms(6) by blast
  have first: "useSystem createEmotionClassname root sx s = (?v, ?s1)"
    using assms by (intro useSystem_miss) simp_all
  have rest: "useSystem_all createEmotionClassname rqs ?s1 =
    (replicate (length rqs) ?v,
     ?s1\<lparr>styleCacheCtx := Some (?c1\<lparr>stats := (stats ?c1)
            \<lparr>calls := calls (stats ?c1) + length rqs, hits := hits (stats ?c1) + length rqs\<rparr>\<rparr>)\<rparr>)"
    using assms(3,4) v by (intro useSystem_all_hits [where k = k and c = ?c1])
      (simp_all add: StyleCache_set_def)
  show ?thesis
    unfolding useSystem_all.simps fst_conv snd_conv first Let_def prod.case rest
    by (simp add: StyleCache_set_def createStyleCache_def)
qed

theorem useSystem_materializes_once_witness:
  "styleCacheCtx freshSession = Some createStyleCache
   \<and> cache createStyleCache (getCompoundKey Null styleA) = None
   \<and> getCompoundKey Null styleA \<noteq> NULL_STYLE_KEY
   \<and> getCompoundKey styleA styleA = getCompoundKey Null styleA
   \<and> emotionCalls (snd (useSystem_all sampleEmotion
        [(Null, styleA), (styleA, styleA), (Null, styleA)] freshSession))
       = [(None, computeStyles styleA)]
   \<and> map_option stats (styleCacheCtx (snd (useSystem_all sampleEmotion
        [(Null, styleA), (styleA, styleA), (Null, styleA)] freshSession)))
       = Some \<lparr>calls = 3, hits = 2, misses = 1, bailouts = 0\<rparr>"
proof -
  have k: "getCompoundKey Null styleA \<noteq> NULL_STYLE_KEY"
    by code_simp
  have e: "getCompoundKey styleA styleA = getCompoundKey Null styleA"
    by code_simp
  have n: "styleA \<noteq> Null"
    by (simp add: styleA_def dynamicStyle_def)
  have h: "styleCacheCtx freshSession = Some createStyleCache"
    "cache createStyleCache (getCompoundKey Null styleA) = None"
    by (simp_all add: freshSession_def createStyleCache_def)
  have a: "\<forall>rq \<in> set ((Null, styleA) # [(styleA, styleA), (Null, styleA)]).
      getCompoundKey (fst rq) (snd rq) = getCompoundKey Null styleA"
    using e by simp
  have x: "(None, computeStyles styleA)
      = (if isNullStyle Null then None else computeStyles Null,
         if isNullStyle styleA then None else computeStyles styleA)"
    using n by simp
  have v: "\<forall>y. sampleEmotion y \<noteq> []"
    by (simp add: sampleEmotion_def)
  from useSystem_materializes_once [where createEmotionClassname = sampleEmotion, OF h k a x v]
    h k e
  show ?thesis
    by (simp del: useSystem_all.simps add: freshSession_def createStyleCache_def eval_nat_numeral)
qed

end
